theory Spec2Isabelle
  imports Main "HOL-Library.Word"
begin

section \<open>Status values, shapes and buffers\<close>

text \<open>
  The all-to-all thunk of the CPU runtime (\<^verbatim>\<open>xla/service/cpu/runtime/all_to_all_thunk.cc\<close>)
  is embedded as pure functions. An \<^verbatim>\<open>absl::Status\<close> is either OK or an error with a
  code and a message; an \<^verbatim>\<open>absl::StatusOr<T>\<close> is a sum with the error on the left.
\<close>

datatype StatusCode =
  kCancelled | kUnknown | kInvalidArgument | kDeadlineExceeded | kNotFound
  | kFailedPrecondition | kInternal | kUnavailable

datatype Error = Error StatusCode string

type_synonym Status = "Error + unit"

type_synonym 'a StatusOr = "Error + 'a"

definition OkStatus :: Status where
  "OkStatus = Inr ()"

text \<open>
  Modelled from the spec: the shape of an operand (\<^verbatim>\<open>xla::Shape\<close>, declared outside this
  file) is reduced to what the byte size is computed from, its element count and the
  byte width of one element.
\<close>

record Shape =
  elementCount :: nat
  elementByteWidth :: nat

text \<open>
  Modelled from the spec: \<^verbatim>\<open>ShapeUtil::ByteSizeOf\<close> is not part of this file; the byte
  size of a shape is \<open>elementCount \<times> elementByteWidth\<close>.
\<close>

definition ByteSizeOf :: "Shape \<Rightarrow> nat" where
  "ByteSizeOf s = elementCount s * elementByteWidth s"

text \<open>
  Modelled from the spec: a \<^verbatim>\<open>BufferAllocation::Slice\<close> (declared outside this file) is
  the symbolic identity of an operand, with its byte size.
\<close>

record Slice =
  allocation :: nat
  offset :: nat
  slice_size :: nat

text \<open>
  Modelled from the spec: a \<^verbatim>\<open>DeviceMemoryBase\<close> (declared outside this file) is the
  memory region an operand resolves to; \<open>opaque\<close> is the address of its first byte.
\<close>

record DeviceMemoryBase =
  opaque :: nat
  size_bytes :: nat

text \<open>
  Modelled from the spec: an operand descriptor pairs the symbolic identity of a buffer
  with its shape, and \<open>OpBuffers\<close> (declared outside this file) holds the ordered sources
  and destinations.
\<close>

record OperandDescriptor =
  buffer :: Slice
  shape :: Shape

record OpBuffers =
  sources :: "OperandDescriptor list"
  destinations :: "OperandDescriptor list"

text \<open>
  Modelled from the spec: \<open>Info\<close> carries the human-readable identity of the thunk and
  \<open>OpParams\<close> identifies the collective group and its configuration (both declared
  outside this file).
\<close>

record Info =
  op_name :: string
  hlo_module_name :: string
  module_id :: int

record OpParams =
  op_id :: int
  has_channel_id :: bool
  group :: "nat list list"

text \<open>
  Modelled from the spec: the result of the resolution (\<^verbatim>\<open>OpDeviceMemory\<close>, declared
  outside this file) holds the memory regions of the sources and of the destinations, in
  operand order. The fields \<open>source\<close> and \<open>destination\<close> are the ones Execute reads.
\<close>

record OpDeviceMemory =
  source :: "DeviceMemoryBase list"
  destination :: "DeviceMemoryBase list"

section \<open>The communicator and the execution parameters\<close>

text \<open>
  Modelled from the spec: a rendezvous key (declared outside this file) identifies the
  execution instance and the group of participants of one collective call.
\<close>

record RendezvousKey =
  run_id :: int
  global_devices :: "nat list"
  key_op_id :: int

type_synonym Duration = nat

text \<open>
  Modelled from the spec: the communicator (\<^verbatim>\<open>CollectivesCommunicator\<close>, declared
  outside this file) is an interface with one virtual method used here; an object of it
  is the function that answers the call. The arguments are the rendezvous key, the byte
  size, the source pointers, the destination pointers and the timeout.
\<close>

record CollectivesCommunicator =
  AllToAll :: "RendezvousKey \<Rightarrow> nat \<Rightarrow> nat list \<Rightarrow> nat list \<Rightarrow> Duration \<Rightarrow> Status"

text \<open>
  One invocation of the communicator's primitive, as the thunk issued it, with the status
  the communicator answered. The list of these records is the communication an execution
  performed.
\<close>

record AllToAllCall =
  call_key :: RendezvousKey
  call_byte_size :: nat
  call_input_buffers :: "nat list"
  call_output_buffers :: "nat list"
  call_timeout :: Duration
  call_status :: Status

text \<open>
  Modelled from the spec: the collective parameters of an execution (declared outside
  this file) derive the rendezvous key of a collective operation and hand out the
  communicator bound to a key; obtaining the communicator fails when the group cannot be
  formed.
\<close>

record CollectiveExecuteParams =
  GetRendezvousKey :: "OpParams \<Rightarrow> RendezvousKey"
  GetCommunicator :: "RendezvousKey \<Rightarrow> CollectivesCommunicator StatusOr"

text \<open>
  Modelled from the spec: the parameters of an execution (\<^verbatim>\<open>ExecuteParams\<close>, declared
  outside this file). The buffer allocations resolve a slice to its memory region, or
  report why they cannot (an unassigned slice).
\<close>

record ExecuteParams =
  buffer_allocations :: "Slice \<Rightarrow> DeviceMemoryBase StatusOr"
  collective_params :: CollectiveExecuteParams

text \<open>
  The value of the returned \<^verbatim>\<open>tsl::AsyncValueRef<ExecuteEvent>\<close>: the thunk runs
  synchronously, so the event it returns is already completed, or failed with an error.
\<close>

datatype AsyncValueRef = OkExecuteEvent | ErrorEvent Error

text \<open>
  A run returns a value together with the communicator calls it made, in the order it
  made them.
\<close>

datatype 'a Run = Done 'a "AllToAllCall list"

fun calls_of :: "'a Run \<Rightarrow> AllToAllCall list" where
  "calls_of (Done v cs) = cs"

fun value_of :: "'a Run \<Rightarrow> 'a" where
  "value_of (Done v cs) = v"

section \<open>The thunk\<close>

datatype Kind = kAllGather | kAllReduce | kAllToAll | kCollectivePermute | kReduceScatter

record AllToAllThunk =
  kind :: Kind
  info :: Info
  op_params :: OpParams
  op_buffers :: OpBuffers

text \<open>
  \<^verbatim>\<open>AllToAllThunk::Create\<close> (lines 41 to 50): the constructor binds the kind
  \<^verbatim>\<open>kAllToAll\<close> and the three arguments, and the result is wrapped as a successful
  \<^verbatim>\<open>StatusOr\<close>. There is no check of the arguments.
\<close>

definition Create :: "Info \<Rightarrow> OpParams \<Rightarrow> OpBuffers \<Rightarrow> AllToAllThunk StatusOr" where
  "Create info' op_params' op_buffers' =
     Inr \<lparr>kind = kAllToAll, info = info', op_params = op_params', op_buffers = op_buffers'\<rparr>"

text \<open>
  Modelled from the spec: the accessors of the collective thunk base are not part of
  this file. \<open>destination_shape\<close> indexes the destinations of the bound \<open>OpBuffers\<close> and
  tests nothing. An index past the end reads outside the vector: C++ leaves what such a read
  yields undefined, so it is the parameter \<open>stray\<close> here, and every statement below holds
  whatever \<open>stray\<close> is.
\<close>

definition destination_shape :: "Shape \<Rightarrow> AllToAllThunk \<Rightarrow> nat \<Rightarrow> Shape" where
  "destination_shape stray t i =
     (let ds = destinations (op_buffers t)
      in if i < length ds then shape (ds ! i) else stray)"

text \<open>
  Modelled from the spec: \<^verbatim>\<open>GetOpDeviceMemory\<close> of the collective thunk base is not part
  of this file. It resolves every source and then every destination operand through the
  buffer allocations of the execution, in operand order; the first operand that cannot be
  resolved is the failure of the whole resolution.
\<close>

fun resolve_all ::
  "(Slice \<Rightarrow> DeviceMemoryBase StatusOr) \<Rightarrow> Slice list \<Rightarrow> DeviceMemoryBase list StatusOr" where
  "resolve_all ba [] = Inr []"
| "resolve_all ba (s # ss) =
     (case ba s of
        Inl e \<Rightarrow> Inl e
      | Inr m \<Rightarrow> (case resolve_all ba ss of Inl e \<Rightarrow> Inl e | Inr ms \<Rightarrow> Inr (m # ms)))"

definition GetOpDeviceMemory :: "AllToAllThunk \<Rightarrow> ExecuteParams \<Rightarrow> OpDeviceMemory StatusOr" where
  "GetOpDeviceMemory t params =
     (case resolve_all (buffer_allocations params) (map buffer (sources (op_buffers t))) of
        Inl e \<Rightarrow> Inl e
      | Inr src \<Rightarrow>
          (case resolve_all (buffer_allocations params)
                  (map buffer (destinations (op_buffers t))) of
             Inl e \<Rightarrow> Inl e
           | Inr dst \<Rightarrow> Inr \<lparr>source = src, destination = dst\<rparr>))"

text \<open>
  Modelled from the spec: \<^verbatim>\<open>ExecuteWithCommunicator\<close> of the collective thunk base is
  not part of this file. It derives the rendezvous key, obtains the communicator bound to
  it (a failure to form the group is the failure of the event), runs the body once and
  turns its status into the event: OK completes the event, an error fails it with that
  error.
\<close>

definition ExecuteWithCommunicator ::
  "AllToAllThunk \<Rightarrow> CollectiveExecuteParams \<Rightarrow>
   (RendezvousKey \<Rightarrow> CollectivesCommunicator \<Rightarrow> Status Run) \<Rightarrow> AsyncValueRef Run" where
  "ExecuteWithCommunicator t cparams callback =
     (let key = GetRendezvousKey cparams (op_params t)
      in case GetCommunicator cparams key of
           Inl e \<Rightarrow> Done (ErrorEvent e) []
         | Inr comm \<Rightarrow>
             (case callback key comm of
                Done (Inl e) cs \<Rightarrow> Done (ErrorEvent e) cs
              | Done (Inr u) cs \<Rightarrow> Done OkExecuteEvent cs))"

text \<open>
  The two loops of lines 79 to 89 push the opaque pointer of every resolved region, by
  increasing index, onto an initially empty vector. The index is an \<^verbatim>\<open>int\<close> compared
  with the size of the vector; operand lists are far shorter than \<open>2^31\<close>, so the index
  is a natural number here.
\<close>

function push_opaque :: "DeviceMemoryBase list \<Rightarrow> nat \<Rightarrow> nat list \<Rightarrow> nat list" where
  "push_opaque regions i buffers =
     (if i < length regions
      then push_opaque regions (i + 1) (buffers @ [opaque (regions ! i)])
      else buffers)"
  by pat_completeness auto
termination
  by (relation "measure (\<lambda>(regions, i, buffers). length regions - i)") auto

text \<open>
  The body passed to \<^verbatim>\<open>ExecuteWithCommunicator\<close> (lines 76 to 96). Line 77 binds the
  shape of destination 0 with no test that there is one, lines 79 to 89 build the two
  pointer vectors, and line 91 calls \<^verbatim>\<open>AllToAll\<close> once, on every path;
  \<^verbatim>\<open>TF_RETURN_IF_ERROR\<close> returns the error of the call, and otherwise the body returns
  OK. The timeout is the value of \<^verbatim>\<open>DefaultCollectiveTimeout()\<close>, a function declared
  outside this file and taken as the parameter \<open>default_timeout\<close>.
\<close>

definition Execute_body ::
  "Shape \<Rightarrow> Duration \<Rightarrow> AllToAllThunk \<Rightarrow> OpDeviceMemory \<Rightarrow> RendezvousKey \<Rightarrow>
   CollectivesCommunicator \<Rightarrow> Status Run" where
  "Execute_body stray default_timeout t data key comm =
     (let shape0 = destination_shape stray t 0;
          input_buffers = push_opaque (source data) 0 [];
          output_buffers = push_opaque (destination data) 0 [];
          st = AllToAll comm key (ByteSizeOf shape0) input_buffers output_buffers
                 default_timeout;
          call = \<lparr>call_key = key, call_byte_size = ByteSizeOf shape0,
                  call_input_buffers = input_buffers,
                  call_output_buffers = output_buffers,
                  call_timeout = default_timeout, call_status = st\<rparr>
      in case st of
           Inl e \<Rightarrow> Done (Inl e) [call]
         | Inr u \<Rightarrow> Done OkStatus [call])"

text \<open>
  \<^verbatim>\<open>AllToAllThunk::Execute\<close> (lines 52 to 97). \<^verbatim>\<open>TF_ASSIGN_OR_RETURN\<close> returns the
  error of the resolution as a failed event before anything else happens. The trace
  (line 54) and the \<^verbatim>\<open>VLOG(3)\<close> statements (lines 58 to 72) are diagnostics and are
  left out: they evaluate their operands only when verbose logging is switched on, and
  then they index the operands below the number of resolved regions, which is the number
  of operands, so they write to the log and do nothing else.
\<close>

definition Execute ::
  "Shape \<Rightarrow> Duration \<Rightarrow> AllToAllThunk \<Rightarrow> ExecuteParams \<Rightarrow> AsyncValueRef Run" where
  "Execute stray default_timeout t params =
     (case GetOpDeviceMemory t params of
        Inl e \<Rightarrow> Done (ErrorEvent e) []
      | Inr data \<Rightarrow>
          ExecuteWithCommunicator t (collective_params params)
            (Execute_body stray default_timeout t data))"

text \<open>
  The one call an execution issues when it reaches the communicator, written out: the
  record of the body above with the pointer vectors as the lists they end up as.
\<close>

definition the_call ::
  "Duration \<Rightarrow> OpDeviceMemory \<Rightarrow> RendezvousKey \<Rightarrow> CollectivesCommunicator \<Rightarrow> Shape \<Rightarrow> AllToAllCall" where
  "the_call T data key comm s =
     \<lparr>call_key = key, call_byte_size = ByteSizeOf s,
      call_input_buffers = map opaque (source data),
      call_output_buffers = map opaque (destination data),
      call_timeout = T,
      call_status = AllToAll comm key (ByteSizeOf s) (map opaque (source data))
                      (map opaque (destination data)) T\<rparr>"

section \<open>The exchange among the participants\<close>

text \<open>
  Modelled from the spec: the transport behind the communicator is not part of this file.
  Every participant has a memory of bytes; a buffer is the run of bytes of a given length
  that starts at its pointer.
\<close>

type_synonym byte = "8 word"

type_synonym Memory = "nat \<Rightarrow> byte"

definition read_bytes :: "Memory \<Rightarrow> nat \<Rightarrow> nat \<Rightarrow> byte list" where
  "read_bytes mem p n = map mem [p..<p + n]"

definition write_bytes :: "Memory \<Rightarrow> nat \<Rightarrow> byte list \<Rightarrow> Memory" where
  "write_bytes mem p bs = (\<lambda>a. if p \<le> a \<and> a < p + length bs then bs ! (a - p) else mem a)"

text \<open>
  Modelled from the spec: index \<open>i\<close> in the source list of participant \<open>P\<close> is delivered
  to slot \<open>P\<close> of the destination list of participant \<open>i\<close>. The bytes are read from
  the memories as they were before the exchange (\<open>mems0\<close>), and as many as the sender
  announced.
\<close>

definition deliver ::
  "AllToAllCall list \<Rightarrow> Memory list \<Rightarrow> nat \<times> nat \<Rightarrow> Memory list \<Rightarrow> Memory list" where
  "deliver calls mems0 sr mems =
     (case sr of (P, i) \<Rightarrow>
        mems[i := write_bytes (mems ! i) (call_output_buffers (calls ! i) ! P)
                    (read_bytes (mems0 ! P) (call_input_buffers (calls ! P) ! i)
                       (call_byte_size (calls ! P)))])"

text \<open>
  Modelled from the spec: in an exchange among \<open>n\<close> participants every participant
  supplies exactly one source buffer per destination participant and receives into one
  destination buffer per source participant; then every source buffer of every participant
  is delivered. \<open>calls ! P\<close> is the call of participant \<open>P\<close> and \<open>mems ! P\<close> its
  memory.
\<close>

definition AllToAll_exchange :: "AllToAllCall list \<Rightarrow> Memory list \<Rightarrow> Memory list option" where
  "AllToAll_exchange calls mems =
     (let n = length calls
      in if length mems = n \<and>
            list_all (\<lambda>c. length (call_input_buffers c) = n \<and>
                          length (call_output_buffers c) = n) calls
         then Some (fold (deliver calls mems) (List.product [0..<n] [0..<n]) mems)
         else None)"

text \<open>
  Modelled from the spec: one thunk runs per participant. When Execute succeeds on every
  participant, the memories afterwards are those of the exchange of the calls the
  participants issued.
\<close>

definition Execute_all ::
  "Shape \<Rightarrow> Duration \<Rightarrow> (AllToAllThunk \<times> ExecuteParams) list \<Rightarrow> Memory list \<Rightarrow>
   Memory list option" where
  "Execute_all stray T ps mems =
     (let runs = map (\<lambda>(t, params). Execute stray T t params) ps
      in if list_all (\<lambda>r. value_of r = OkExecuteEvent) runs
         then AllToAll_exchange (concat (map calls_of runs)) mems
         else None)"

text \<open>
  What makes the buffers of an exchange valid: every source and destination shape has
  the same byte size \<open>b\<close>, and the regions of \<open>b\<close> bytes at the given pointers do not
  overlap.
\<close>

definition uniform_shapes :: "nat \<Rightarrow> OpBuffers \<Rightarrow> bool" where
  "uniform_shapes b bufs =
     list_all (\<lambda>d. ByteSizeOf (shape d) = b) (sources bufs @ destinations bufs)"

fun disjoint_regions :: "nat \<Rightarrow> nat list \<Rightarrow> bool" where
  "disjoint_regions b [] = True"
| "disjoint_regions b (p # ps) =
     (list_all (\<lambda>q. p + b \<le> q \<or> q + b \<le> p) ps \<and> disjoint_regions b ps)"

section \<open>Concrete thunks and executions\<close>

text \<open>
  Operands of \<open>n\<close> four-byte elements, buffer allocations that assign the first \<open>n\<close>
  allocations and leave the others unassigned, and a communicator that answers every call
  with a given status. \<open>ex_stray\<close> is an empty shape, taken for the read of a destination
  shape past the end in the concrete executions.
\<close>

definition ex_shape :: "nat \<Rightarrow> Shape" where
  "ex_shape n = \<lparr>elementCount = n, elementByteWidth = 4\<rparr>"

definition ex_stray :: Shape where
  "ex_stray = \<lparr>elementCount = 0, elementByteWidth = 0\<rparr>"

definition ex_operand :: "nat \<Rightarrow> nat \<Rightarrow> OperandDescriptor" where
  "ex_operand a n =
     \<lparr>buffer = \<lparr>allocation = a, offset = 0, slice_size = 4 * n\<rparr>, shape = ex_shape n\<rparr>"

definition ex_info :: Info where
  "ex_info = \<lparr>op_name = ''all-to-all'', hlo_module_name = ''main'', module_id = 0\<rparr>"

definition ex_op_params :: OpParams where
  "ex_op_params = \<lparr>op_id = 7, has_channel_id = False, group = [[0, 1]]\<rparr>"

definition ex_thunk :: "OpBuffers \<Rightarrow> AllToAllThunk" where
  "ex_thunk b = \<lparr>kind = kAllToAll, info = ex_info, op_params = ex_op_params, op_buffers = b\<rparr>"

definition ex_allocations :: "nat \<Rightarrow> Slice \<Rightarrow> DeviceMemoryBase StatusOr" where
  "ex_allocations n s =
     (if allocation s < n
      then Inr \<lparr>opaque = 4096 + 64 * allocation s + offset s, size_bytes = slice_size s\<rparr>
      else Inl (Error kNotFound ''unassigned slice''))"

definition ex_communicator :: "Status \<Rightarrow> CollectivesCommunicator" where
  "ex_communicator st = \<lparr>AllToAll = (\<lambda>key byte_size inputs outputs timeout. st)\<rparr>"

definition ex_collectives :: "CollectivesCommunicator StatusOr \<Rightarrow> CollectiveExecuteParams" where
  "ex_collectives c =
     \<lparr>GetRendezvousKey = (\<lambda>p. \<lparr>run_id = 1, global_devices = [0, 1], key_op_id = op_id p\<rparr>),
      GetCommunicator = (\<lambda>key. c)\<rparr>"

definition ex_params :: "nat \<Rightarrow> CollectivesCommunicator StatusOr \<Rightarrow> ExecuteParams" where
  "ex_params n c = \<lparr>buffer_allocations = ex_allocations n, collective_params = ex_collectives c\<rparr>"

definition ex_buffers :: OpBuffers where
  "ex_buffers = \<lparr>sources = [ex_operand 0 2], destinations = [ex_operand 1 2]\<rparr>"

definition ex_buffers_mixed :: OpBuffers where
  "ex_buffers_mixed =
     \<lparr>sources = [ex_operand 0 2, ex_operand 1 2],
      destinations = [ex_operand 2 2, ex_operand 3 3]\<rparr>"


definition ex_timeout_error :: Error where
  "ex_timeout_error = Error kDeadlineExceeded ''all-to-all timed out''"

definition ex_call :: "Status \<Rightarrow> AllToAllCall" where
  "ex_call st =
     \<lparr>call_key = \<lparr>run_id = 1, global_devices = [0, 1], key_op_id = 7\<rparr>,
      call_byte_size = 8, call_input_buffers = [4096, 4160],
      call_output_buffers = [4224, 4288], call_timeout = 30, call_status = st\<rparr>"



text \<open>
  Two participants that run the same thunk with two sources and two destinations of eight
  bytes each, on memories that differ in every byte.
\<close>

definition ex_buffers_pair :: OpBuffers where
  "ex_buffers_pair =
     \<lparr>sources = [ex_operand 0 2, ex_operand 1 2],
      destinations = [ex_operand 2 2, ex_operand 3 2]\<rparr>"

definition ex_participants :: "(AllToAllThunk \<times> ExecuteParams) list" where
  "ex_participants =
     [(ex_thunk ex_buffers_pair, ex_params 4 (Inr (ex_communicator OkStatus))),
      (ex_thunk ex_buffers_pair, ex_params 4 (Inr (ex_communicator OkStatus)))]"

definition ex_memory :: "nat \<Rightarrow> Memory" where
  "ex_memory k = (\<lambda>a. word_of_nat (a + k))"

definition ex_memories :: "Memory list" where
  "ex_memories = [ex_memory 0, ex_memory 100]"

definition ex_data_pair :: OpDeviceMemory where
  "ex_data_pair =
     \<lparr>source = [\<lparr>opaque = 4096, size_bytes = 8\<rparr>, \<lparr>opaque = 4160, size_bytes = 8\<rparr>],
      destination = [\<lparr>opaque = 4224, size_bytes = 8\<rparr>, \<lparr>opaque = 4288, size_bytes = 8\<rparr>]\<rparr>"

section \<open>Auxiliary facts\<close>

lemmas ex_defs = ex_shape_def ex_operand_def ex_info_def ex_op_params_def ex_thunk_def
  ex_allocations_def ex_communicator_def ex_collectives_def ex_params_def

declare push_opaque.simps [simp del]

lemma push_opaque_drop: "push_opaque regions i buffers = buffers @ map opaque (drop i regions)"
proof (induction regions i buffers rule: push_opaque.induct)
  case (1 regions i buffers)
  show ?case
  proof (cases "i < length regions")
    case True
    then have "drop i regions = regions ! i # drop (i + 1) regions"
      by (simp add: Cons_nth_drop_Suc)
    with True 1 show ?thesis
      by (simp add: push_opaque.simps [of regions i buffers])
  next
    case False
    then show ?thesis
      by (simp add: push_opaque.simps [of regions i buffers])
  qed
qed

lemma push_opaque_all: "push_opaque regions 0 [] = map opaque regions"
  by (simp add: push_opaque_drop)

lemma Execute_body_call:
  "Execute_body stray T t data key comm =
     Done (call_status (the_call T data key comm (destination_shape stray t 0)))
       [the_call T data key comm (destination_shape stray t 0)]"
  by (simp add: Execute_body_def the_call_def push_opaque_all Let_def OkStatus_def
      split: sum.splits)

lemma Execute_reaches:
  assumes "GetOpDeviceMemory t params = Inr data"
    and "GetCommunicator (collective_params params)
           (GetRendezvousKey (collective_params params) (op_params t)) = Inr comm"
  shows "Execute stray T t params =
           Done (case call_status
                        (the_call T data (GetRendezvousKey (collective_params params) (op_params t))
                           comm (destination_shape stray t 0)) of
                   Inl e \<Rightarrow> ErrorEvent e | Inr u \<Rightarrow> OkExecuteEvent)
             [the_call T data (GetRendezvousKey (collective_params params) (op_params t))
                comm (destination_shape stray t 0)]"
  using assms
  by (simp add: Execute_def ExecuteWithCommunicator_def Execute_body_call Let_def
      split: sum.splits)

lemma Execute_calls:
  assumes "c \<in> set (calls_of (Execute stray T t params))"
  shows "\<exists>data comm.
           GetOpDeviceMemory t params = Inr data \<and>
           GetCommunicator (collective_params params)
             (GetRendezvousKey (collective_params params) (op_params t)) = Inr comm \<and>
           c = the_call T data (GetRendezvousKey (collective_params params) (op_params t)) comm
                 (destination_shape stray t 0) \<and>
           Execute stray T t params =
             Done (case call_status c of Inl e \<Rightarrow> ErrorEvent e | Inr u \<Rightarrow> OkExecuteEvent) [c]"
proof (cases "GetOpDeviceMemory t params")
  case (Inl e)
  with assms show ?thesis by (simp add: Execute_def)
next
  case (Inr data)
  note data = this
  let ?key = "GetRendezvousKey (collective_params params) (op_params t)"
  show ?thesis
  proof (cases "GetCommunicator (collective_params params) ?key")
    case (Inl e)
    with assms data show ?thesis
      by (simp add: Execute_def ExecuteWithCommunicator_def)
  next
    case (Inr comm)
    with assms data Execute_reaches [OF data Inr, of stray T] show ?thesis
      by simp
  qed
qed

lemmas run_defs = Execute_def GetOpDeviceMemory_def ExecuteWithCommunicator_def
  Execute_body_def destination_shape_def ByteSizeOf_def OkStatus_def Let_def push_opaque_all

lemma destination_shape_0:
  "destination_shape stray t 0 =
     (case destinations (op_buffers t) of [] \<Rightarrow> stray | d # ds \<Rightarrow> shape d)"
  by (simp add: destination_shape_def Let_def split: list.splits)

lemma Execute_calls_length: "length (calls_of (Execute stray T t params)) \<le> 1"
proof (cases "calls_of (Execute stray T t params)")
  case Nil
  then show ?thesis by simp
next
  case (Cons c cs)
  then have "c \<in> set (calls_of (Execute stray T t params))"
    by simp
  from Execute_calls [OF this] show ?thesis
    by auto
qed

lemma ex_Execute_mixed:
  "Execute ex_stray 30 (ex_thunk ex_buffers_mixed) (ex_params 4 (Inr (ex_communicator st))) =
     Done (case st of Inl e \<Rightarrow> ErrorEvent e | Inr u \<Rightarrow> OkExecuteEvent) [ex_call st]"
  by (simp add: run_defs ex_defs ex_buffers_mixed_def ex_call_def split: sum.splits)


subsection \<open>Reading and writing memory, and the exchange\<close>

lemma length_read_bytes [simp]: "length (read_bytes mem p n) = n"
  by (simp add: read_bytes_def)

lemma read_write_same: "read_bytes (write_bytes mem p bs) p (length bs) = bs"
proof (rule nth_equalityI)
  show "length (read_bytes (write_bytes mem p bs) p (length bs)) = length bs"
    by simp
next
  fix i
  assume "i < length (read_bytes (write_bytes mem p bs) p (length bs))"
  then have "i < length bs"
    by simp
  then show "read_bytes (write_bytes mem p bs) p (length bs) ! i = bs ! i"
    by (simp add: read_bytes_def write_bytes_def)
qed

lemma read_write_other:
  "p + n \<le> q \<or> q + length bs \<le> p \<Longrightarrow> read_bytes (write_bytes mem q bs) p n = read_bytes mem p n"
  by (auto simp add: read_bytes_def write_bytes_def)

lemma length_deliver [simp]: "length (deliver calls mems0 sr mems) = length mems"
  by (simp add: deliver_def split: prod.splits)

lemma length_fold_deliver [simp]: "length (fold (deliver calls mems0) prs mems) = length mems"
  by (induction prs arbitrary: mems) simp_all

lemma fold_deliver_preserves:
  assumes "R < length mems"
    and "\<And>S. (S, R) \<in> set prs \<Longrightarrow>
           p + n \<le> call_output_buffers (calls ! R) ! S \<or>
           call_output_buffers (calls ! R) ! S + call_byte_size (calls ! S) \<le> p"
  shows "read_bytes (fold (deliver calls mems0) prs mems ! R) p n = read_bytes (mems ! R) p n"
  using assms
proof (induction prs arbitrary: mems)
  case Nil
  then show ?case by simp
next
  case (Cons sr prs)
  obtain S' R' where sr: "sr = (S', R')" by (cases sr)
  have len: "R < length (deliver calls mems0 sr mems)"
    using Cons.prems(1) by simp
  have "read_bytes (fold (deliver calls mems0) prs (deliver calls mems0 sr mems) ! R) p n =
        read_bytes (deliver calls mems0 sr mems ! R) p n"
    by (rule Cons.IH [OF len]) (use Cons.prems(2) in auto)
  also have "\<dots> = read_bytes (mems ! R) p n"
  proof (cases "R' = R")
    case True
    with sr Cons.prems(2) [of S'] have
      "p + n \<le> call_output_buffers (calls ! R) ! S' \<or>
       call_output_buffers (calls ! R) ! S' + call_byte_size (calls ! S') \<le> p"
      by simp
    with True sr Cons.prems(1) show ?thesis
      by (simp add: deliver_def read_write_other)
  next
    case False
    with sr Cons.prems(1) show ?thesis
      by (simp add: deliver_def)
  qed
  finally show ?case by simp
qed

lemma fold_deliver_hits:
  assumes "R < length mems" and "(S, R) \<in> set prs" and "distinct prs"
    and "\<And>S'. (S', R) \<in> set prs \<Longrightarrow> S' \<noteq> S \<Longrightarrow>
           call_output_buffers (calls ! R) ! S + call_byte_size (calls ! S)
             \<le> call_output_buffers (calls ! R) ! S' \<or>
           call_output_buffers (calls ! R) ! S' + call_byte_size (calls ! S')
             \<le> call_output_buffers (calls ! R) ! S"
  shows "read_bytes (fold (deliver calls mems0) prs mems ! R)
           (call_output_buffers (calls ! R) ! S) (call_byte_size (calls ! S)) =
         read_bytes (mems0 ! S) (call_input_buffers (calls ! S) ! R) (call_byte_size (calls ! S))"
  using assms
proof (induction prs arbitrary: mems)
  case Nil
  then show ?case by simp
next
  case (Cons sr prs)
  let ?q = "call_output_buffers (calls ! R) ! S"
  let ?b = "call_byte_size (calls ! S)"
  have len: "R < length (deliver calls mems0 sr mems)"
    using Cons.prems(1) by simp
  show ?case
  proof (cases "sr = (S, R)")
    case True
    with Cons.prems(3) have notin: "(S, R) \<notin> set prs"
      by simp
    have "read_bytes (fold (deliver calls mems0) prs (deliver calls mems0 sr mems) ! R) ?q ?b =
          read_bytes (deliver calls mems0 sr mems ! R) ?q ?b"
    proof (rule fold_deliver_preserves [OF len])
      fix S'
      assume in': "(S', R) \<in> set prs"
      with notin have "S' \<noteq> S" by auto
      with Cons.prems(4) [of S'] in' show
        "?q + ?b \<le> call_output_buffers (calls ! R) ! S' \<or>
         call_output_buffers (calls ! R) ! S' + call_byte_size (calls ! S') \<le> ?q"
        by simp
    qed
    also have "\<dots> = read_bytes (mems0 ! S) (call_input_buffers (calls ! S) ! R) ?b"
      using True Cons.prems(1)
      by (simp add: deliver_def)
        (metis length_read_bytes read_write_same)
    finally show ?thesis by simp
  next
    case False
    with Cons.prems(2) have "(S, R) \<in> set prs"
      by simp
    moreover from Cons.prems(3) have "distinct prs"
      by simp
    ultimately have
      "read_bytes (fold (deliver calls mems0) prs (deliver calls mems0 sr mems) ! R) ?q ?b =
       read_bytes (mems0 ! S) (call_input_buffers (calls ! S) ! R) ?b"
      using Cons.prems(4) by (intro Cons.IH [OF len]) auto
    then show ?thesis by simp
  qed
qed

lemma disjoint_regions_nth:
  "disjoint_regions b ps \<Longrightarrow> j < length ps \<Longrightarrow> k < length ps \<Longrightarrow> j \<noteq> k \<Longrightarrow>
   ps ! j + b \<le> ps ! k \<or> ps ! k + b \<le> ps ! j"
proof (induction ps arbitrary: j k)
  case Nil
  then show ?case by simp
next
  case (Cons p ps)
  from Cons.prems(1) have all: "\<forall>q \<in> set ps. p + b \<le> q \<or> q + b \<le> p"
    and rest: "disjoint_regions b ps"
    by (simp_all add: list_all_iff)
  show ?case
  proof (cases j)
    case 0
    with Cons.prems obtain k' where k: "k = Suc k'" "k' < length ps"
      by (cases k) auto
    with all have "p + b \<le> ps ! k' \<or> ps ! k' + b \<le> p"
      by simp
    with 0 k show ?thesis by simp
  next
    case (Suc j')
    show ?thesis
    proof (cases k)
      case 0
      from Suc Cons.prems(2) have "j' < length ps" by simp
      with all have "p + b \<le> ps ! j' \<or> ps ! j' + b \<le> p"
        by simp
      with 0 Suc show ?thesis by auto
    next
      case (Suc k')
      with \<open>j = Suc j'\<close> Cons.prems Cons.IH [OF rest, of j' k'] show ?thesis
        by simp
    qed
  qed
qed

lemma resolve_all_length: "resolve_all ba ss = Inr ms \<Longrightarrow> length ms = length ss"
  by (induction ss arbitrary: ms) (auto split: sum.splits)

lemma GetOpDeviceMemory_destination_length:
  "GetOpDeviceMemory t params = Inr data \<Longrightarrow>
   length (destination data) = length (destinations (op_buffers t))"
  by (auto simp add: GetOpDeviceMemory_def split: sum.splits dest: resolve_all_length)

lemma Execute_ok:
  assumes "value_of (Execute stray T t params) = OkExecuteEvent"
  shows "\<exists>data comm.
           GetOpDeviceMemory t params = Inr data \<and>
           calls_of (Execute stray T t params) =
             [the_call T data (GetRendezvousKey (collective_params params) (op_params t)) comm
                (destination_shape stray t 0)]"
proof (cases "GetOpDeviceMemory t params")
  case (Inl e)
  with assms show ?thesis by (simp add: Execute_def)
next
  case (Inr data)
  note data = this
  let ?key = "GetRendezvousKey (collective_params params) (op_params t)"
  show ?thesis
  proof (cases "GetCommunicator (collective_params params) ?key")
    case (Inl e)
    with assms data show ?thesis
      by (simp add: Execute_def ExecuteWithCommunicator_def)
  next
    case (Inr comm)
    with data Execute_reaches [OF data Inr, of stray T] show ?thesis
      by auto
  qed
qed

lemma concat_singletons:
  assumes "\<forall>r \<in> set rs. \<exists>c. f r = [c]"
  shows "length (concat (map f rs)) = length rs \<and>
         (\<forall>k < length rs. f (rs ! k) = [concat (map f rs) ! k])"
  using assms
proof (induction rs)
  case Nil
  then show ?case by simp
next
  case (Cons r rs)
  then obtain c where c: "f r = [c]" by auto
  from Cons have IH: "length (concat (map f rs)) = length rs"
    "\<forall>k < length rs. f (rs ! k) = [concat (map f rs) ! k]"
    by auto
  show ?case
  proof (intro conjI allI impI)
    show "length (concat (map f (r # rs))) = length (r # rs)"
      using c IH(1) by simp
  next
    fix k
    assume "k < length (r # rs)"
    then show "f ((r # rs) ! k) = [concat (map f (r # rs)) ! k]"
      using c IH(2) by (cases k) auto
  qed
qed

lemma ex_resolve_pair:
  "GetOpDeviceMemory (ex_thunk ex_buffers_pair) (ex_params 4 (Inr (ex_communicator OkStatus))) =
     Inr ex_data_pair"
  by (simp add: GetOpDeviceMemory_def ex_defs ex_buffers_pair_def ex_data_pair_def)

lemma ex_Execute_pair:
  "Execute ex_stray 30 (ex_thunk ex_buffers_pair) (ex_params 4 (Inr (ex_communicator OkStatus))) =
     Done OkExecuteEvent [ex_call OkStatus]"
  by (simp add: run_defs ex_defs ex_buffers_pair_def ex_call_def)

section \<open>Properties of Create and Execute\<close>

text \<open>
  C1. When the resolution of the buffers fails, Execute returns the failed event carrying
  the error of the resolution and has made no call to the communicator; the collective
  parameters play no part in the result, so the communicator is never looked up.
\<close>

theorem Execute_resolution_failure:
  assumes "GetOpDeviceMemory t params = Inl e"
  shows "Execute stray default_timeout t params = Done (ErrorEvent e) [] \<and>
         (\<forall>cparams.
            Execute stray default_timeout t (params\<lparr>collective_params := cparams\<rparr>) =
              Done (ErrorEvent e) [])"
proof -
  have "GetOpDeviceMemory t (params\<lparr>collective_params := cparams\<rparr>) =
        GetOpDeviceMemory t params" for cparams
    by (simp add: GetOpDeviceMemory_def split: sum.splits)
  with assms show ?thesis
    by (simp add: Execute_def)
qed

theorem Execute_resolution_failure_witness:
  "GetOpDeviceMemory (ex_thunk ex_buffers) (ex_params 1 (Inr (ex_communicator OkStatus))) =
     Inl (Error kNotFound ''unassigned slice'') \<and>
   Execute ex_stray 30 (ex_thunk ex_buffers) (ex_params 1 (Inr (ex_communicator OkStatus))) =
     Done (ErrorEvent (Error kNotFound ''unassigned slice'')) []"
proof -
  have h: "GetOpDeviceMemory (ex_thunk ex_buffers) (ex_params 1 (Inr (ex_communicator OkStatus))) =
     Inl (Error kNotFound ''unassigned slice'')"
    by (simp add: GetOpDeviceMemory_def ex_defs ex_buffers_def)
  from Execute_resolution_failure [OF h, of ex_stray 30] h show ?thesis by simp
qed




text \<open>
  C3, as stated, fails: with destinations of two and of three four-byte elements the
  resolution succeeds and Execute passes 8 as the byte size, while the second destination
  has 12 bytes.
\<close>

theorem uniform_byte_size_counterexample:
  "GetOpDeviceMemory (ex_thunk ex_buffers_mixed) (ex_params 4 (Inr (ex_communicator OkStatus))) =
     Inr \<lparr>source = [\<lparr>opaque = 4096, size_bytes = 8\<rparr>, \<lparr>opaque = 4160, size_bytes = 8\<rparr>],
          destination = [\<lparr>opaque = 4224, size_bytes = 8\<rparr>, \<lparr>opaque = 4288, size_bytes = 12\<rparr>]\<rparr> \<and>
   Execute ex_stray 30 (ex_thunk ex_buffers_mixed) (ex_params 4 (Inr (ex_communicator OkStatus))) =
     Done OkExecuteEvent
       [\<lparr>call_key = \<lparr>run_id = 1, global_devices = [0, 1], key_op_id = 7\<rparr>,
         call_byte_size = 8, call_input_buffers = [4096, 4160],
         call_output_buffers = [4224, 4288], call_timeout = 30, call_status = Inr ()\<rparr>] \<and>
   ByteSizeOf (shape (destinations (op_buffers (ex_thunk ex_buffers_mixed)) ! 1)) = 12"
  by (simp add: run_defs ex_defs ex_buffers_mixed_def)

text \<open>
  C3, amended. On a thunk that has a destination 0, every call Execute makes passes as
  the byte size the element count times the element byte width of the shape of
  destination 0, and whenever the buffers resolve and the communicator is obtained Execute
  makes that one call, whatever the shapes of the other destinations are: their byte sizes
  are not compared with it.
\<close>

theorem Execute_byte_size:
  assumes "destinations (op_buffers t) = d # ds"
  shows "(\<forall>c \<in> set (calls_of (Execute stray T t params)).
            call_byte_size c = elementCount (shape d) * elementByteWidth (shape d)) \<and>
         (\<forall>data comm.
            GetOpDeviceMemory t params = Inr data \<longrightarrow>
            GetCommunicator (collective_params params)
              (GetRendezvousKey (collective_params params) (op_params t)) = Inr comm \<longrightarrow>
            (\<exists>c. calls_of (Execute stray T t params) = [c] \<and>
                 call_byte_size c = elementCount (shape d) * elementByteWidth (shape d) \<and>
                 call_output_buffers c = map opaque (destination data)))"
proof (intro conjI ballI allI impI)
  fix c
  assume "c \<in> set (calls_of (Execute stray T t params))"
  from Execute_calls [OF this] obtain data comm where
    "c = the_call T data (GetRendezvousKey (collective_params params) (op_params t)) comm
           (destination_shape stray t 0)"
    by blast
  with assms show "call_byte_size c = elementCount (shape d) * elementByteWidth (shape d)"
    by (simp add: the_call_def ByteSizeOf_def destination_shape_0)
next
  fix data comm
  assume "GetOpDeviceMemory t params = Inr data"
    and "GetCommunicator (collective_params params)
           (GetRendezvousKey (collective_params params) (op_params t)) = Inr comm"
  from Execute_reaches [OF this, of stray T] assms
  show "\<exists>c. calls_of (Execute stray T t params) = [c] \<and>
            call_byte_size c = elementCount (shape d) * elementByteWidth (shape d) \<and>
            call_output_buffers c = map opaque (destination data)"
    by (simp add: the_call_def ByteSizeOf_def destination_shape_0)
qed

text \<open>
  An instance of the amended C3: destinations of 8 and of 12 bytes, and a call of 8.
\<close>

theorem Execute_byte_size_witness:
  "destinations (op_buffers (ex_thunk ex_buffers_mixed)) = [ex_operand 2 2, ex_operand 3 3] \<and>
   calls_of (Execute ex_stray 30 (ex_thunk ex_buffers_mixed)
     (ex_params 4 (Inr (ex_communicator OkStatus)))) = [ex_call OkStatus] \<and>
   call_byte_size (ex_call OkStatus) =
     elementCount (shape (ex_operand 2 2)) * elementByteWidth (shape (ex_operand 2 2))"
proof -
  have d: "destinations (op_buffers (ex_thunk ex_buffers_mixed)) =
             ex_operand 2 2 # [ex_operand 3 3]"
    by (simp add: ex_thunk_def ex_buffers_mixed_def)
  have e: "calls_of (Execute ex_stray 30 (ex_thunk ex_buffers_mixed)
             (ex_params 4 (Inr (ex_communicator OkStatus)))) = [ex_call OkStatus]"
    by (simp add: ex_Execute_mixed)
  from Execute_byte_size [OF d, of ex_stray 30 "ex_params 4 (Inr (ex_communicator OkStatus))"] e
  have "call_byte_size (ex_call OkStatus) =
     elementCount (shape (ex_operand 2 2)) * elementByteWidth (shape (ex_operand 2 2))"
    by simp
  with d e show ?thesis
    by simp
qed

text \<open>
  C4. Execute calls the communicator at most once. The status recorded for a call is the
  answer of the communicator obtained for the key, and when it is an error the event
  Execute returns is failed with exactly that error; so is it when the communicator cannot
  be obtained.
\<close>

theorem Execute_propagates_error:
  "length (calls_of (Execute stray T t params)) \<le> 1 \<and>
   (\<forall>c \<in> set (calls_of (Execute stray T t params)). \<exists>comm.
      GetCommunicator (collective_params params) (call_key c) = Inr comm \<and>
      call_status c =
        AllToAll comm (call_key c) (call_byte_size c) (call_input_buffers c)
          (call_output_buffers c) (call_timeout c) \<and>
      (\<forall>e. call_status c = Inl e \<longrightarrow> Execute stray T t params = Done (ErrorEvent e) [c])) \<and>
   (\<forall>data e. GetOpDeviceMemory t params = Inr data \<longrightarrow>
      GetCommunicator (collective_params params)
        (GetRendezvousKey (collective_params params) (op_params t)) = Inl e \<longrightarrow>
      Execute stray T t params = Done (ErrorEvent e) [])"
proof (intro conjI ballI allI impI)
  show "length (calls_of (Execute stray T t params)) \<le> 1"
    by (rule Execute_calls_length)
next
  fix c
  assume "c \<in> set (calls_of (Execute stray T t params))"
  from Execute_calls [OF this] obtain data comm s where
    comm: "GetCommunicator (collective_params params)
             (GetRendezvousKey (collective_params params) (op_params t)) = Inr comm" and
    c: "c = the_call T data (GetRendezvousKey (collective_params params) (op_params t)) comm s" and
    e: "Execute stray T t params =
          Done (case call_status c of Inl e \<Rightarrow> ErrorEvent e | Inr u \<Rightarrow> OkExecuteEvent) [c]"
    by blast
  from c have key: "call_key c = GetRendezvousKey (collective_params params) (op_params t)"
    by (simp add: the_call_def)
  from c have st: "call_status c =
        AllToAll comm (call_key c) (call_byte_size c) (call_input_buffers c)
          (call_output_buffers c) (call_timeout c)"
    by (simp add: the_call_def)
  have "\<forall>e. call_status c = Inl e \<longrightarrow> Execute stray T t params = Done (ErrorEvent e) [c]"
    using e by simp
  with comm key st show "\<exists>comm.
      GetCommunicator (collective_params params) (call_key c) = Inr comm \<and>
      call_status c =
        AllToAll comm (call_key c) (call_byte_size c) (call_input_buffers c)
          (call_output_buffers c) (call_timeout c) \<and>
      (\<forall>e. call_status c = Inl e \<longrightarrow> Execute stray T t params = Done (ErrorEvent e) [c])"
    by auto
next
  fix data e
  assume "GetOpDeviceMemory t params = Inr data"
    and "GetCommunicator (collective_params params)
        (GetRendezvousKey (collective_params params) (op_params t)) = Inl e"
  then show "Execute stray T t params = Done (ErrorEvent e) []"
    by (simp add: Execute_def ExecuteWithCommunicator_def)
qed

text \<open>
  An instance of C4: the communicator reports a timeout.
\<close>

theorem Execute_propagates_error_witness:
  "calls_of (Execute ex_stray 30 (ex_thunk ex_buffers_mixed)
     (ex_params 4 (Inr (ex_communicator (Inl ex_timeout_error))))) =
     [ex_call (Inl ex_timeout_error)] \<and>
   call_status (ex_call (Inl ex_timeout_error)) = Inl ex_timeout_error \<and>
   Execute ex_stray 30 (ex_thunk ex_buffers_mixed)
     (ex_params 4 (Inr (ex_communicator (Inl ex_timeout_error)))) =
     Done (ErrorEvent ex_timeout_error) [ex_call (Inl ex_timeout_error)]"
proof -
  let ?r = "Execute ex_stray 30 (ex_thunk ex_buffers_mixed)
     (ex_params 4 (Inr (ex_communicator (Inl ex_timeout_error))))"
  have cs: "calls_of ?r = [ex_call (Inl ex_timeout_error)]"
    by (simp add: ex_Execute_mixed)
  have st: "call_status (ex_call (Inl ex_timeout_error)) = Inl ex_timeout_error"
    by (simp add: ex_call_def)
  from Execute_propagates_error [of ex_stray 30 "ex_thunk ex_buffers_mixed"
      "ex_params 4 (Inr (ex_communicator (Inl ex_timeout_error)))"]
  have "\<forall>c \<in> set (calls_of ?r). \<forall>e. call_status c = Inl e \<longrightarrow> ?r = Done (ErrorEvent e) [c]"
    by blast
  with cs st have "?r = Done (ErrorEvent ex_timeout_error) [ex_call (Inl ex_timeout_error)]"
    by simp
  with cs st show ?thesis
    by simp
qed

text \<open>
  C5. The timeout of every call Execute makes is the default collective timeout, whatever
  the thunk and the parameters of the execution are.
\<close>

theorem Execute_timeout:
  assumes "c \<in> set (calls_of (Execute stray default_timeout t params))"
  shows "call_timeout c = default_timeout"
proof -
  from Execute_calls [OF assms] obtain data comm s where
    "c = the_call default_timeout data
           (GetRendezvousKey (collective_params params) (op_params t)) comm s"
    by blast
  then show ?thesis
    by (simp add: the_call_def)
qed

text \<open>
  An instance of C5.
\<close>

theorem Execute_timeout_witness:
  "ex_call OkStatus \<in> set (calls_of (Execute ex_stray 30 (ex_thunk ex_buffers_mixed)
     (ex_params 4 (Inr (ex_communicator OkStatus))))) \<and>
   call_timeout (ex_call OkStatus) = 30"
proof -
  have h: "ex_call OkStatus \<in> set (calls_of (Execute ex_stray 30 (ex_thunk ex_buffers_mixed)
     (ex_params 4 (Inr (ex_communicator OkStatus)))))"
    by (simp add: ex_Execute_mixed)
  from Execute_timeout [OF h] h show ?thesis
    by simp
qed

text \<open>
  C6. Create succeeds on every triple of arguments, and the thunk it returns is of kind
  all-to-all and holds exactly the info, the parameters and the buffers it was given.
\<close>

theorem Create_succeeds:
  "\<exists>t. Create i p b = Inr t \<and> kind t = kAllToAll \<and> info t = i \<and> op_params t = p \<and>
        op_buffers t = b"
  by (simp add: Create_def)

text \<open>
  C7. Let Execute succeed on every participant of an exchange whose shapes all have
  byte size \<open>b\<close>, and let the destination regions of participant \<open>P\<close> not overlap. Then
  there are as many buffers as participants, and after the exchange destination buffer
  \<open>i\<close> of participant \<open>P\<close> holds the bytes that source buffer \<open>P\<close> of participant \<open>i\<close>
  held before.
\<close>

theorem AllToAll_transpose:
  assumes run: "Execute_all stray T ps mems = Some mems'"
    and P: "P < length ps" and i: "i < length ps"
    and psP: "ps ! P = (tP, paramsP)" and psi: "ps ! i = (ti, paramsi)"
    and dataP: "GetOpDeviceMemory tP paramsP = Inr dataP"
    and datai: "GetOpDeviceMemory ti paramsi = Inr datai"
    and uniform: "list_all (\<lambda>(t, params). uniform_shapes b (op_buffers t)) ps"
    and disjoint: "disjoint_regions b (map opaque (destination dataP))"
  shows "length (destination dataP) = length ps \<and> length (source datai) = length ps \<and>
         read_bytes (mems' ! P) (opaque (destination dataP ! i)) b =
           read_bytes (mems ! i) (opaque (source datai ! P)) b"
proof -
  let ?n = "length ps"
  let ?run = "\<lambda>(t, params). Execute stray T t params"
  let ?runs = "map ?run ps"
  let ?calls = "concat (map calls_of ?runs)"
  from run have ok: "list_all (\<lambda>r. value_of r = OkExecuteEvent) ?runs"
    and ex: "AllToAll_exchange ?calls mems = Some mems'"
    by (simp_all add: Execute_all_def Let_def split: if_splits)
  have single: "\<forall>r \<in> set ?runs. \<exists>c. calls_of r = [c]"
  proof
    fix r
    assume "r \<in> set ?runs"
    then obtain t params where r: "r = Execute stray T t params"
      by auto
    moreover from ok \<open>r \<in> set ?runs\<close> have "value_of r = OkExecuteEvent"
      by (auto simp add: list_all_iff)
    ultimately show "\<exists>c. calls_of r = [c]"
      using Execute_ok [of stray T t params] by auto
  qed
  from concat_singletons [OF single]
  have len: "length ?calls = ?n"
    and nth: "\<And>k. k < ?n \<Longrightarrow> calls_of (?runs ! k) = [?calls ! k]"
    by simp_all
  from ex len have lm: "length mems = ?n"
    and wf: "list_all (\<lambda>c. length (call_input_buffers c) = ?n \<and>
                           length (call_output_buffers c) = ?n) ?calls"
    and mems': "mems' = fold (deliver ?calls mems) (List.product [0..<?n] [0..<?n]) mems"
    by (auto simp add: AllToAll_exchange_def Let_def split: if_splits)
  have call_of: "\<exists>comm.
      ?calls ! k = the_call T data (GetRendezvousKey (collective_params params) (op_params t)) comm
                     (destination_shape stray t 0)"
    if k: "k < ?n" and psk: "ps ! k = (t, params)" and data: "GetOpDeviceMemory t params = Inr data"
    for k t params data
  proof -
    from k psk have rk: "?runs ! k = Execute stray T t params"
      by simp
    from ok k have "value_of (?runs ! k) = OkExecuteEvent"
      by (simp add: list_all_length)
    with rk have "value_of (Execute stray T t params) = OkExecuteEvent"
      by simp
    from Execute_ok [OF this] data nth [OF k] rk show ?thesis
      by auto
  qed
  have size_of: "call_byte_size (?calls ! k) = b" if k: "k < ?n" for k
  proof -
    obtain t params where psk: "ps ! k = (t, params)"
      by (cases "ps ! k")
    from k psk have rk: "?runs ! k = Execute stray T t params"
      by simp
    from ok k have "value_of (?runs ! k) = OkExecuteEvent"
      by (simp add: list_all_length)
    with rk have "value_of (Execute stray T t params) = OkExecuteEvent"
      by simp
    from Execute_ok [OF this] nth [OF k] rk obtain data comm where
      data: "GetOpDeviceMemory t params = Inr data" and
      c: "?calls ! k = the_call T data (GetRendezvousKey (collective_params params) (op_params t))
                         comm (destination_shape stray t 0)"
      by auto
    from wf len k have "length (call_output_buffers (?calls ! k)) = ?n"
      by (simp add: list_all_length)
    with c have "length (destination data) = ?n"
      by (simp add: the_call_def)
    with GetOpDeviceMemory_destination_length [OF data] k
    obtain d ds where d: "destinations (op_buffers t) = d # ds"
      by (cases "destinations (op_buffers t)") auto
    from uniform k psk have "uniform_shapes b (op_buffers t)"
      by (auto simp add: list_all_length)
    with d have "ByteSizeOf (destination_shape stray t 0) = b"
      by (simp add: uniform_shapes_def destination_shape_0)
    with c show ?thesis
      by (simp add: the_call_def)
  qed
  from call_of [OF P psP dataP] have
    outP: "call_output_buffers (?calls ! P) = map opaque (destination dataP)"
    by (auto simp add: the_call_def)
  from call_of [OF i psi datai] have
    ini: "call_input_buffers (?calls ! i) = map opaque (source datai)"
    by (auto simp add: the_call_def)
  from wf len P outP have ldst: "length (destination dataP) = ?n"
    by (auto simp add: list_all_length)
  from wf len i ini have lsrc: "length (source datai) = ?n"
    by (auto simp add: list_all_length)
  have "read_bytes (fold (deliver ?calls mems) (List.product [0..<?n] [0..<?n]) mems ! P)
           (call_output_buffers (?calls ! P) ! i) (call_byte_size (?calls ! i)) =
         read_bytes (mems ! i) (call_input_buffers (?calls ! i) ! P) (call_byte_size (?calls ! i))"
  proof (rule fold_deliver_hits)
    show "P < length mems"
      using lm P by simp
    show "(i, P) \<in> set (List.product [0..<?n] [0..<?n])"
      using P i by simp
    show "distinct (List.product [0..<?n] [0..<?n])"
      by (simp add: distinct_product)
  next
    fix S'
    assume S': "(S', P) \<in> set (List.product [0..<?n] [0..<?n])" and ne: "S' \<noteq> i"
    then have S'n: "S' < ?n"
      by simp
    from disjoint_regions_nth [OF disjoint, of i S'] i S'n ne ldst
    have "opaque (destination dataP ! i) + b \<le> opaque (destination dataP ! S') \<or>
          opaque (destination dataP ! S') + b \<le> opaque (destination dataP ! i)"
      by auto
    with outP size_of [OF i] size_of [OF S'n] i S'n ldst show
      "call_output_buffers (?calls ! P) ! i + call_byte_size (?calls ! i)
         \<le> call_output_buffers (?calls ! P) ! S' \<or>
       call_output_buffers (?calls ! P) ! S' + call_byte_size (?calls ! S')
         \<le> call_output_buffers (?calls ! P) ! i"
      by simp
  qed
  with mems' outP ini size_of [OF i] i P ldst lsrc have
    "read_bytes (mems' ! P) (opaque (destination dataP ! i)) b =
       read_bytes (mems ! i) (opaque (source datai ! P)) b"
    by simp
  with ldst lsrc show ?thesis
    by simp
qed

text \<open>
  An instance of C7: two participants; destination 1 of participant 0 receives source 0
  of participant 1.
\<close>

theorem AllToAll_transpose_witness:
  "\<exists>mems'. Execute_all ex_stray 30 ex_participants ex_memories = Some mems' \<and>
     read_bytes (mems' ! 0) 4288 8 = read_bytes (ex_memories ! 1) 4096 8"
proof -
  let ?t = "ex_thunk ex_buffers_pair"
  let ?p = "ex_params 4 (Inr (ex_communicator OkStatus))"
  obtain m where run: "Execute_all ex_stray 30 ex_participants ex_memories = Some m"
    by (simp add: Execute_all_def AllToAll_exchange_def ex_participants_def ex_memories_def
        ex_Execute_pair ex_call_def)
  have P: "0 < length ex_participants" and i: "1 < length ex_participants"
    and psP: "ex_participants ! 0 = (?t, ?p)" and psi: "ex_participants ! 1 = (?t, ?p)"
    by (simp_all add: ex_participants_def)
  have uniform: "list_all (\<lambda>(t, params). uniform_shapes 8 (op_buffers t)) ex_participants"
    by (simp add: ex_participants_def uniform_shapes_def ByteSizeOf_def ex_defs ex_buffers_pair_def)
  have disjoint: "disjoint_regions 8 (map opaque (destination ex_data_pair))"
    by (simp add: ex_data_pair_def)
  from AllToAll_transpose [OF run P i psP psi ex_resolve_pair ex_resolve_pair uniform disjoint]
  have "read_bytes (m ! 0) 4288 8 = read_bytes (ex_memories ! 1) 4096 8"
    by (simp add: ex_data_pair_def)
  with run show ?thesis
    by blast
qed

text \<open>
  C9. In every call Execute makes, the source pointers are the opaque pointers of the
  resolved sources in operand order, the destination pointers those of the resolved
  destinations in operand order, and the key is the one derived by the collective
  parameters.
\<close>

theorem Execute_pointer_lists:
  assumes "c \<in> set (calls_of (Execute stray T t params))"
  shows "\<exists>data. GetOpDeviceMemory t params = Inr data \<and>
           call_input_buffers c = map opaque (source data) \<and>
           call_output_buffers c = map opaque (destination data) \<and>
           (\<forall>i < length (source data). call_input_buffers c ! i = opaque (source data ! i)) \<and>
           (\<forall>i < length (destination data).
              call_output_buffers c ! i = opaque (destination data ! i)) \<and>
           call_key c = GetRendezvousKey (collective_params params) (op_params t)"
proof -
  from Execute_calls [OF assms] obtain data comm s where
    data: "GetOpDeviceMemory t params = Inr data" and
    c: "c = the_call T data (GetRendezvousKey (collective_params params) (op_params t)) comm s"
    by blast
  from c have "call_input_buffers c = map opaque (source data)"
    and "call_output_buffers c = map opaque (destination data)"
    and "call_key c = GetRendezvousKey (collective_params params) (op_params t)"
    by (simp_all add: the_call_def)
  with data show ?thesis
    by simp
qed

text \<open>
  An instance of C9.
\<close>

theorem Execute_pointer_lists_witness:
  "ex_call OkStatus \<in> set (calls_of (Execute ex_stray 30 (ex_thunk ex_buffers_mixed)
     (ex_params 4 (Inr (ex_communicator OkStatus))))) \<and>
   GetOpDeviceMemory (ex_thunk ex_buffers_mixed) (ex_params 4 (Inr (ex_communicator OkStatus))) =
     Inr \<lparr>source = [\<lparr>opaque = 4096, size_bytes = 8\<rparr>, \<lparr>opaque = 4160, size_bytes = 8\<rparr>],
          destination = [\<lparr>opaque = 4224, size_bytes = 8\<rparr>, \<lparr>opaque = 4288, size_bytes = 12\<rparr>]\<rparr> \<and>
   call_input_buffers (ex_call OkStatus) = [4096, 4160] \<and>
   call_output_buffers (ex_call OkStatus) = [4224, 4288] \<and>
   call_key (ex_call OkStatus) =
     GetRendezvousKey (collective_params (ex_params 4 (Inr (ex_communicator OkStatus))))
       (op_params (ex_thunk ex_buffers_mixed))"
proof -
  have h: "ex_call OkStatus \<in> set (calls_of (Execute ex_stray 30 (ex_thunk ex_buffers_mixed)
     (ex_params 4 (Inr (ex_communicator OkStatus)))))"
    by (simp add: ex_Execute_mixed)
  have r: "GetOpDeviceMemory (ex_thunk ex_buffers_mixed)
      (ex_params 4 (Inr (ex_communicator OkStatus))) =
     Inr \<lparr>source = [\<lparr>opaque = 4096, size_bytes = 8\<rparr>, \<lparr>opaque = 4160, size_bytes = 8\<rparr>],
          destination = [\<lparr>opaque = 4224, size_bytes = 8\<rparr>, \<lparr>opaque = 4288, size_bytes = 12\<rparr>]\<rparr>"
    by (simp add: GetOpDeviceMemory_def ex_defs ex_buffers_mixed_def)
  from Execute_pointer_lists [OF h] r h show ?thesis
    by auto
qed



end
